theory Spec2Isabelle
  imports Main "HOL-Library.Word" "HOL-Library.AList"
begin

section \<open>Python values used by the DHCP module\<close>

text \<open>
  Bytes are 8-bit words, a \<open>bytes\<close> object is a list of them. Python strings are
  \<open>string\<close>. Clock readings (\<open>time.time()\<close>) are modelled as integer seconds; every
  operation of the lease manager receives the reading as its argument \<open>now\<close>, and the
  readings taken inside one call are taken to be the same instant.
\<close>

type_synonym byte = "8 word"

datatype py_error = StructError | IndexError | OSError | ValueError | TypeError

text \<open>\<open>str(n)\<close> for a non-negative integer: its decimal digits.\<close>

definition digit_char :: "nat \<Rightarrow> char" where
  "digit_char d = ''0123456789'' ! d"

function str_nat :: "nat \<Rightarrow> string" where
  "str_nat n = (if n < 10 then [digit_char n] else str_nat (n div 10) @ [digit_char (n mod 10)])"
  by pat_completeness auto
termination
  by (relation "measure id") auto

declare str_nat.simps [simp del]

text \<open>\<open>sep.join(parts)\<close>.\<close>

fun join :: "string \<Rightarrow> string list \<Rightarrow> string" where
  "join sep [] = []"
| "join sep [x] = x"
| "join sep (x # y # ys) = x @ sep @ join sep (y # ys)"

text \<open>
  The dotted-quad text of four octets, as \<open>str(IPv4Address(n))\<close> and
  \<open>socket.inet_ntoa(b)\<close> produce it.
\<close>

definition dotted_quad :: "nat list \<Rightarrow> string" where
  "dotted_quad octets = join ''.'' (map str_nat octets)"

definition to_bytes4 :: "int \<Rightarrow> nat list" where
  "to_bytes4 n = [nat (n div 16777216 mod 256), nat (n div 65536 mod 256),
                  nat (n div 256 mod 256), nat (n mod 256)]"

definition IPv4Address_str :: "int \<Rightarrow> string" where
  "IPv4Address_str n = dotted_quad (to_bytes4 n)"

text \<open>\<open>socket.inet_ntoa\<close> raises \<open>OSError\<close> unless it is given exactly four bytes.\<close>

definition inet_ntoa :: "byte list \<Rightarrow> py_error + string" where
  "inet_ntoa b = (if length b \<noteq> 4 then Inl OSError else Inr (dotted_quad (map unat b)))"

section \<open>LeaseManager\<close>

text \<open>
  The two dictionaries \<open>leases\<close> and \<open>offered\<close> map a MAC string to an entry
  \<open>{ip, expiry}\<close>. A dictionary is an association list: \<open>d[k] = v\<close> is
  \<open>AList.update\<close>, \<open>del d[k]\<close> is \<open>AList.delete\<close>, \<open>k in d\<close> and \<open>d[k]\<close> read
  \<open>map_of\<close>. \<open>range_start\<close> and \<open>range_end\<close> are \<open>IPv4Address\<close> objects, 32-bit
  values; of \<open>subnet\<close> only the netmask is ever read.
\<close>

record lease =
  ip :: string
  expiry :: int

record LeaseManager =
  netmask :: "32 word"
  range_start :: "32 word"
  range_end :: "32 word"
  lease_time :: int
  leases :: "(string \<times> lease) list"
  offered :: "(string \<times> lease) list"

definition LeaseManager_init :: "32 word \<Rightarrow> 32 word \<Rightarrow> 32 word \<Rightarrow> int \<Rightarrow> LeaseManager" where
  "LeaseManager_init nm rs re lt =
     \<lparr>netmask = nm, range_start = rs, range_end = re, lease_time = lt,
      leases = [], offered = []\<rparr>"

text \<open>
  \<open>get_lease\<close>: the bound address when the binding's expiry is after \<open>now\<close>;
  otherwise the stale entry is deleted and the result is \<open>None\<close>.
\<close>

definition get_lease :: "string \<Rightarrow> int \<Rightarrow> LeaseManager \<Rightarrow> string option \<times> LeaseManager" where
  "get_lease mac now lm =
     (case map_of (leases lm) mac of
        Some l \<Rightarrow>
          if expiry l > now then (Some (ip l), lm)
          else (None, lm\<lparr>leases := AList.delete mac (leases lm)\<rparr>)
      | None \<Rightarrow> (None, lm))"

text \<open>
  \<open>used_ips\<close>: the address of every entry of \<open>leases\<close> (expired or not), and the
  address of every entry of \<open>offered\<close> whose expiry is after \<open>now\<close>.
\<close>

definition used_ips :: "LeaseManager \<Rightarrow> int \<Rightarrow> string set" where
  "used_ips lm now =
     set (map (\<lambda>l. ip l) (map snd (leases lm))) \<union>
     set (map (\<lambda>ofr. ip ofr) (filter (\<lambda>ofr. expiry ofr > now) (map snd (offered lm))))"

text \<open>The \<open>for\<close> loop over the range: the first address whose text is not in \<open>used\<close>.\<close>

fun scan_range :: "string set \<Rightarrow> int list \<Rightarrow> string option" where
  "scan_range used [] = None"
| "scan_range used (ip_int # rest) =
     (if IPv4Address_str ip_int \<notin> used then Some (IPv4Address_str ip_int)
      else scan_range used rest)"

definition range_ints :: "LeaseManager \<Rightarrow> int list" where
  "range_ints lm = [uint (range_start lm) .. uint (range_end lm)]"

text \<open>\<open>if existing:\<close> holds for a string that is not empty.\<close>

definition truthy :: "'a list option \<Rightarrow> bool" where
  "truthy v = (case v of None \<Rightarrow> False | Some x \<Rightarrow> x \<noteq> [])"

definition offer_ip :: "string \<Rightarrow> int \<Rightarrow> LeaseManager \<Rightarrow> string option \<times> LeaseManager" where
  "offer_ip mac now lm =
     (case get_lease mac now lm of
        (existing, lm1) \<Rightarrow>
          if truthy existing then (existing, lm1)
          else
            (case scan_range (used_ips lm1 now) (range_ints lm1) of
               Some a \<Rightarrow>
                 (Some a, lm1\<lparr>offered := AList.update mac \<lparr>ip = a, expiry = now + 60\<rparr> (offered lm1)\<rparr>)
             | None \<Rightarrow> (None, lm1)))"

definition commit_lease :: "string \<Rightarrow> string \<Rightarrow> int \<Rightarrow> LeaseManager \<Rightarrow> LeaseManager" where
  "commit_lease mac a now lm =
     lm\<lparr>leases := AList.update mac \<lparr>ip = a, expiry = now + lease_time lm\<rparr> (leases lm),
        offered := AList.delete mac (offered lm)\<rparr>"

section \<open>The \<open>struct\<close> module, network byte order\<close>

text \<open>
  A format string is a list of field codes: \<open>B\<close>, \<open>H\<close> and \<open>I\<close> are unsigned
  integers of 1, 2 and 4 bytes, \<open>16s\<close> is a byte string of 16 bytes. With \<open>!\<close> the
  fields are big-endian and there is no padding. \<open>struct.pack\<close> raises
  \<open>struct.error\<close> when the number of values is not the number of fields, when a value
  has the wrong type or is out of range; \<open>struct.unpack\<close> raises it when the buffer's
  length is not \<open>calcsize\<close> of the format.
\<close>

datatype fmt = FB | FH | FI | FS nat

datatype sval = VInt int | VBytes "byte list"

fun fmt_size :: "fmt \<Rightarrow> nat" where
  "fmt_size FB = 1"
| "fmt_size FH = 2"
| "fmt_size FI = 4"
| "fmt_size (FS n) = n"

definition calcsize :: "fmt list \<Rightarrow> nat" where
  "calcsize fs = sum_list (map fmt_size fs)"

fun be_bytes :: "nat \<Rightarrow> int \<Rightarrow> byte list" where
  "be_bytes 0 v = []"
| "be_bytes (Suc k) v = be_bytes k (v div 256) @ [word_of_int (v mod 256)]"

definition be_int :: "byte list \<Rightarrow> int" where
  "be_int b = foldl (\<lambda>acc x. acc * 256 + uint x) 0 b"

fun pack_field :: "fmt \<Rightarrow> sval \<Rightarrow> py_error + byte list" where
  "pack_field (FS n) (VBytes b) = Inr (take n b @ replicate (n - length b) 0)"
| "pack_field (FS n) (VInt v) = Inl StructError"
| "pack_field f (VBytes b) = Inl StructError"
| "pack_field f (VInt v) =
     (if 0 \<le> v \<and> v < 256 ^ fmt_size f then Inr (be_bytes (fmt_size f) v) else Inl StructError)"

fun pack_fields :: "fmt list \<Rightarrow> sval list \<Rightarrow> py_error + byte list" where
  "pack_fields (f # fs) (v # vs) =
     (case pack_field f v of
        Inl e \<Rightarrow> Inl e
      | Inr b \<Rightarrow> (case pack_fields fs vs of Inl e \<Rightarrow> Inl e | Inr bs \<Rightarrow> Inr (b @ bs)))"
| "pack_fields fs vs = Inr []"

definition struct_pack :: "fmt list \<Rightarrow> sval list \<Rightarrow> py_error + byte list" where
  "struct_pack fs vs = (if length vs \<noteq> length fs then Inl StructError else pack_fields fs vs)"

fun unpack_field :: "fmt \<Rightarrow> byte list \<Rightarrow> sval" where
  "unpack_field (FS n) b = VBytes b"
| "unpack_field f b = VInt (be_int b)"

fun unpack_fields :: "fmt list \<Rightarrow> byte list \<Rightarrow> sval list" where
  "unpack_fields [] buf = []"
| "unpack_fields (f # fs) buf =
     unpack_field f (take (fmt_size f) buf) # unpack_fields fs (drop (fmt_size f) buf)"

definition struct_unpack :: "fmt list \<Rightarrow> byte list \<Rightarrow> py_error + sval list" where
  "struct_unpack fs buf =
     (if length buf \<noteq> calcsize fs then Inl StructError else Inr (unpack_fields fs buf))"

text \<open>The format \<open>'!BBBBIHHIIII16s'\<close> and its prefix \<open>'!BBBBIHHIIII'\<close>.\<close>

definition header_fmt :: "fmt list" where
  "header_fmt = [FB, FB, FB, FB, FI, FH, FH, FI, FI, FI, FI, FS 16]"

definition header_start_fmt :: "fmt list" where
  "header_start_fmt = [FB, FB, FB, FB, FI, FH, FH, FI, FI, FI, FI]"

section \<open>\<open>socket.inet_aton\<close>\<close>

text \<open>
  \<open>socket.inet_aton\<close> hands the text to the C library, and which texts are valid
  depends on that library. It is therefore a parameter \<open>aton\<close> of \<open>send_reply\<close>
  and of the handler: a function from the text to the packed bytes or \<open>OSError\<close>.
  Every statement below holds for every such function.
\<close>

type_synonym aton = "string \<Rightarrow> py_error + byte list"

section \<open>DHCPServer\<close>

record DHCPServer =
  server_ip :: string
  dns :: string
  lease_manager :: LeaseManager

text \<open>What one call of \<open>handle_packet\<close> does besides changing the lease manager.\<close>

datatype outcome = Raised py_error | NoReply | Reply "byte list"

definition bind_err :: "py_error + 'a \<Rightarrow> ('a \<Rightarrow> py_error + 'b) \<Rightarrow> py_error + 'b" where
  "bind_err r f = (case r of Inl e \<Rightarrow> Inl e | Inr x \<Rightarrow> f x)"

definition magic_cookie :: "byte list" where
  "magic_cookie = [0x63, 0x82, 0x53, 0x63]"

text \<open>
  \<open>send_reply\<close>, statement by statement. The first \<open>struct.pack\<close> is given thirteen
  values (2, 1, 6, 0, xid, seven zeros and the padded MAC); the result is the packet
  handed to \<open>sendto\<close>, whose own failure is caught and logged.
\<close>

definition send_reply :: "aton \<Rightarrow> DHCPServer \<Rightarrow> int \<Rightarrow> byte list \<Rightarrow> string \<Rightarrow> int \<Rightarrow> py_error + byte list" where
  "send_reply aton srv xid mac_bytes yiaddr_str msg_type =
     bind_err (struct_pack header_fmt
        [VInt 2, VInt 1, VInt 6, VInt 0, VInt xid, VInt 0, VInt 0, VInt 0, VInt 0, VInt 0,
         VInt 0, VInt 0, VBytes (mac_bytes @ replicate 10 0)]) (\<lambda>packet0.
     bind_err (if 0 \<le> msg_type \<and> msg_type < 256 then Inr [word_of_int msg_type] else Inl ValueError)
       (\<lambda>type_byte.
     bind_err (aton (IPv4Address_str (uint (netmask (lease_manager srv))))) (\<lambda>mask_bytes.
     bind_err (aton (server_ip srv)) (\<lambda>router_bytes.
     bind_err (aton (dns srv)) (\<lambda>dns_bytes.
     bind_err (aton (server_ip srv)) (\<lambda>ident_bytes.
     bind_err (struct_pack [FI] [VInt (lease_time (lease_manager srv))]) (\<lambda>lease_bytes.
     bind_err (aton yiaddr_str) (\<lambda>yiaddr_bytes.
     bind_err (struct_unpack [FI] yiaddr_bytes) (\<lambda>yiaddr_vals.
     bind_err (case yiaddr_vals of v # _ \<Rightarrow> Inr v | [] \<Rightarrow> Inl IndexError) (\<lambda>yiaddr_int.
     bind_err (struct_pack header_start_fmt
        [VInt 2, VInt 1, VInt 6, VInt 0, VInt xid, VInt 0, VInt 0, VInt 0, yiaddr_int,
         VInt 0, VInt 0]) (\<lambda>header_start.
     Inr (header_start @
          drop 28 (packet0 @ replicate 192 0 @ magic_cookie
                   @ [0x35, 0x01] @ type_byte
                   @ [0x01, 0x04] @ mask_bytes
                   @ [0x03, 0x04] @ router_bytes
                   @ [0x06, 0x04] @ dns_bytes
                   @ [0x36, 0x04] @ ident_bytes
                   @ [0x33, 0x04] @ lease_bytes
                   @ [0xff])))))))))))))"

text \<open>
  The option loop of \<open>handle_packet\<close>. \<open>data[idx]\<close> is guarded by the loop condition;
  \<open>data[idx+1]\<close> is not, and raises \<open>IndexError\<close> when \<open>idx\<close> is the last index.
  The slice \<open>data[idx+2:idx+2+opt_len]\<close> is cut at the buffer's end.
\<close>

function parse_options ::
  "byte list \<Rightarrow> nat \<Rightarrow> (byte \<times> byte list) list \<Rightarrow> py_error + (byte \<times> byte list) list" where
  "parse_options data idx options =
     (if idx < length data then
        (if data ! idx = 255 then Inr options
         else if data ! idx = 0 then parse_options data (idx + 1) options
         else if idx + 1 < length data then
           parse_options data (idx + 2 + unat (data ! (idx + 1)))
             (AList.update (data ! idx) (take (unat (data ! (idx + 1))) (drop (idx + 2) data)) options)
         else Inl IndexError)
      else Inr options)"
  by pat_completeness auto
termination
  by (relation "measure (\<lambda>(data, idx, options). length data - idx)") auto

declare parse_options.simps [simp del]

text \<open>\<open>':'.join('%02x' % b for b in mac_bytes)\<close>.\<close>

definition hex_char :: "nat \<Rightarrow> char" where
  "hex_char d = ''0123456789abcdef'' ! d"

definition hex02 :: "byte \<Rightarrow> string" where
  "hex02 b = [hex_char (unat b div 16), hex_char (unat b mod 16)]"

definition mac_string :: "byte list \<Rightarrow> string" where
  "mac_string mac_bytes = join '':'' (map hex02 mac_bytes)"

text \<open>
  \<open>handle_packet\<close> from the message-type test to its end: the client key, DISCOVER and
  REQUEST. A raise after the lease manager was changed leaves the change in place.
\<close>

definition reply_outcome :: "py_error + byte list \<Rightarrow> outcome" where
  "reply_outcome r = (case r of Inl e \<Rightarrow> Raised e | Inr packet \<Rightarrow> Reply packet)"

definition dispatch ::
  "aton \<Rightarrow> DHCPServer \<Rightarrow> int \<Rightarrow> byte list \<Rightarrow> (byte \<times> byte list) list \<Rightarrow> int \<Rightarrow> outcome \<times> DHCPServer" where
  "dispatch aton srv xid chaddr options now =
     (case map_of options 53 of
        None \<Rightarrow> (NoReply, srv)
      | Some [] \<Rightarrow> (NoReply, srv)
      | Some (msg_type # _) \<Rightarrow>
          (let mac_bytes = take 6 chaddr; mac_str = mac_string mac_bytes in
           if msg_type = 1 then
             (case offer_ip mac_str now (lease_manager srv) of
                (offered_ip, lm') \<Rightarrow>
                  (let srv' = srv\<lparr>lease_manager := lm'\<rparr> in
                   case offered_ip of
                     None \<Rightarrow> (NoReply, srv')
                   | Some a \<Rightarrow>
                       if a = [] then (NoReply, srv')
                       else (reply_outcome (send_reply aton srv' xid mac_bytes a 2), srv')))
           else if msg_type = 3 then
             (case map_of options 50 of
                None \<Rightarrow> (NoReply, srv)
              | Some [] \<Rightarrow> (NoReply, srv)
              | Some (r # rs) \<Rightarrow>
                  (case inet_ntoa (r # rs) of
                     Inl e \<Rightarrow> (Raised e, srv)
                   | Inr requested_ip \<Rightarrow>
                       (let srv' = srv\<lparr>lease_manager :=
                                      commit_lease mac_str requested_ip now (lease_manager srv)\<rparr>
                        in (reply_outcome (send_reply aton srv' xid mac_bytes requested_ip 5), srv'))))
           else (NoReply, srv)))"

text \<open>\<open>handle_packet\<close> after the header was unpacked: the cookie test and the options.\<close>

definition handle_body ::
  "aton \<Rightarrow> DHCPServer \<Rightarrow> byte list \<Rightarrow> int \<Rightarrow> byte list \<Rightarrow> int \<Rightarrow> outcome \<times> DHCPServer" where
  "handle_body aton srv data xid chaddr now =
     (if take 4 (drop 236 data) \<noteq> magic_cookie then (NoReply, srv)
      else
        (case parse_options data 240 [] of
           Inl e \<Rightarrow> (Raised e, srv)
         | Inr options \<Rightarrow> dispatch aton srv xid chaddr options now))"

text \<open>
  The twelve unpacked values are bound to \<open>op, htype, hlen, hops, xid, secs, flags,
  ciaddr, yiaddr, siaddr, giaddr, chaddr\<close>; only \<open>xid\<close> and \<open>chaddr\<close> are read again.
\<close>

definition handle_unpacked ::
  "aton \<Rightarrow> DHCPServer \<Rightarrow> byte list \<Rightarrow> sval list \<Rightarrow> int \<Rightarrow> outcome \<times> DHCPServer" where
  "handle_unpacked aton srv data vals now =
     (if length vals \<noteq> 12 then (Raised ValueError, srv)
      else
        (case (vals ! 4, vals ! 11) of
           (VInt xid, VBytes chaddr) \<Rightarrow> handle_body aton srv data xid chaddr now
         | _ \<Rightarrow> (Raised TypeError, srv)))"

text \<open>
  \<open>handle_packet\<close>: the length test, then \<open>struct.unpack\<close> of the format
  \<open>'!BBBBIHHIIII16s'\<close> on the slice \<open>data[:28]\<close>.
\<close>

definition handle_packet :: "aton \<Rightarrow> DHCPServer \<Rightarrow> byte list \<Rightarrow> int \<Rightarrow> outcome \<times> DHCPServer" where
  "handle_packet aton srv data now =
     (if length data < 240 then (NoReply, srv)
      else
        (case struct_unpack header_fmt (take 28 data) of
           Inl e \<Rightarrow> (Raised e, srv)
         | Inr vals \<Rightarrow> handle_unpacked aton srv data vals now))"

definition sends_reply :: "outcome \<Rightarrow> bool" where
  "sends_reply r = (case r of Reply packet \<Rightarrow> True | _ \<Rightarrow> False)"

section \<open>Sequences of lease-manager calls\<close>

text \<open>
  The calls the handler makes on the lease manager: \<open>offer_ip(mac)\<close> for a DISCOVER,
  \<open>commit_lease(mac, ip)\<close> with the address the client names for a REQUEST, and
  \<open>get_lease(mac)\<close>; each with the clock reading at which it runs.
\<close>

datatype pool_op = Offer string int | Commit string string int | Lookup string int

fun op_time :: "pool_op \<Rightarrow> int" where
  "op_time (Offer mac t) = t"
| "op_time (Commit mac a t) = t"
| "op_time (Lookup mac t) = t"

fun exec_op :: "pool_op \<Rightarrow> LeaseManager \<Rightarrow> LeaseManager" where
  "exec_op (Offer mac t) lm = snd (offer_ip mac t lm)"
| "exec_op (Commit mac a t) lm = commit_lease mac a t lm"
| "exec_op (Lookup mac t) lm = snd (get_lease mac t lm)"

fun run_ops :: "pool_op list \<Rightarrow> LeaseManager \<Rightarrow> LeaseManager" where
  "run_ops [] lm = lm"
| "run_ops (x # xs) lm = run_ops xs (exec_op x lm)"

text \<open>The entries of both tables that have not expired at time \<open>t\<close>.\<close>

definition live_entries :: "LeaseManager \<Rightarrow> int \<Rightarrow> (string \<times> lease) list" where
  "live_entries lm t =
     filter (\<lambda>(mac, l). expiry l > t) (leases lm) @ filter (\<lambda>(mac, l). expiry l > t) (offered lm)"

text \<open>Uniqueness at time \<open>t\<close>: no two live entries of distinct MACs carry the same address.\<close>

definition unique_ips :: "LeaseManager \<Rightarrow> int \<Rightarrow> bool" where
  "unique_ips lm t =
     (\<forall>(m1, l1) \<in> set (live_entries lm t). \<forall>(m2, l2) \<in> set (live_entries lm t).
        m1 \<noteq> m2 \<longrightarrow> ip l1 \<noteq> ip l2)"

text \<open>
  A sequence of calls from clock reading \<open>t0\<close> on, whose readings never decrease and
  whose every commit names an address that no live entry of another MAC carries at
  that moment.
\<close>

fun unclaimed :: "pool_op \<Rightarrow> LeaseManager \<Rightarrow> bool" where
  "unclaimed (Commit mac a t) lm =
     (\<forall>(m', l) \<in> set (live_entries lm t). m' \<noteq> mac \<longrightarrow> ip l \<noteq> a)"
| "unclaimed x lm = True"

fun admissible :: "int \<Rightarrow> pool_op list \<Rightarrow> LeaseManager \<Rightarrow> bool" where
  "admissible t0 [] lm = True"
| "admissible t0 (x # xs) lm =
     (t0 \<le> op_time x \<and> unclaimed x lm \<and> admissible (op_time x) xs (exec_op x lm))"

text \<open>The same without the condition on commits: only the clock is constrained.\<close>

fun clock_ordered :: "int \<Rightarrow> pool_op list \<Rightarrow> bool" where
  "clock_ordered t0 [] = True"
| "clock_ordered t0 (x # xs) = (t0 \<le> op_time x \<and> clock_ordered (op_time x) xs)"




section \<open>Example configurations\<close>

text \<open>
  A pool over the two addresses 192.168.10.100 and 192.168.10.101 of 192.168.10.0/24,
  a pool over the single address 192.168.10.100, and a server on 192.168.10.1.
\<close>

definition pool2 :: LeaseManager where
  "pool2 = LeaseManager_init 0xFFFFFF00 0xC0A80A64 0xC0A80A65 3600"

definition pool1 :: LeaseManager where
  "pool1 = LeaseManager_init 0xFFFFFF00 0xC0A80A64 0xC0A80A64 3600"

definition server2 :: DHCPServer where
  "server2 = \<lparr>server_ip = ''192.168.10.1'', dns = ''8.8.8.8'', lease_manager = pool2\<rparr>"

text \<open>The two-address pool after \<open>commit_lease('m1', '192.168.10.100')\<close> at time 0.\<close>

definition stale_pool :: LeaseManager where
  "stale_pool = commit_lease ''m1'' ''192.168.10.100'' 0 pool2"

text \<open>The one-address pool after the same commit.\<close>

definition stale_pool1 :: LeaseManager where
  "stale_pool1 = commit_lease ''m1'' ''192.168.10.100'' 0 pool1"

text \<open>
  A concrete \<open>aton\<close> for the examples: the packed bytes of the address texts that
  occur in the example configuration, and \<open>OSError\<close> on any other text, which the
  examples never pass to it.
\<close>

definition aton_example :: aton where
  "aton_example s =
     (if s = ''192.168.10.1'' then Inr [192, 168, 10, 1]
      else if s = ''8.8.8.8'' then Inr [8, 8, 8, 8]
      else if s = ''255.255.255.0'' then Inr [255, 255, 255, 0]
      else if s = ''192.168.10.100'' then Inr [192, 168, 10, 100]
      else if s = ''192.168.10.101'' then Inr [192, 168, 10, 101]
      else Inl OSError)"



text \<open>
  Three \<open>chaddr\<close> fields: the first two agree on their first six bytes, the third
  differs in the sixth.
\<close>

definition chaddr_a :: "byte list" where
  "chaddr_a = [0xaa, 0xbb, 0xcc, 0, 0, 1, 0, 0, 0, 0, 0, 0, 0, 0, 0, 0]"

definition chaddr_b :: "byte list" where
  "chaddr_b = [0xaa, 0xbb, 0xcc, 0, 0, 1, 9, 9, 9, 9, 9, 9, 9, 9, 9, 9]"

definition chaddr_c :: "byte list" where
  "chaddr_c = [0xaa, 0xbb, 0xcc, 0, 0, 2, 0, 0, 0, 0, 0, 0, 0, 0, 0, 0]"

text \<open>A datagram of 236 zero bytes, the magic cookie and the given option bytes.\<close>

definition datagram :: "byte list \<Rightarrow> byte list" where
  "datagram opts = replicate 236 0 @ magic_cookie @ opts"

section \<open>Invariants used in the proofs\<close>

text \<open>Uniqueness at every time from \<open>t0\<close> on.\<close>

definition stable :: "int \<Rightarrow> LeaseManager \<Rightarrow> bool" where
  "stable t0 lm = (\<forall>t \<ge> t0. unique_ips lm t)"


section \<open>Auxiliary facts\<close>

lemma set_update_subset: "set (AList.update k v al) \<subseteq> insert (k, v) (set al)"
  by (induction al) (auto split: if_splits)

lemma set_delete_subset: "set (AList.delete k al) \<subseteq> set al"
  by (induction al) (auto split: if_splits)

lemma scan_range_Some:
  "scan_range used xs = Some a \<Longrightarrow> a \<notin> used \<and> a \<in> IPv4Address_str ` set xs"
  by (induction xs) (auto split: if_splits)


lemma in_live_entries:
  "(m, l) \<in> set (live_entries lm t) \<longleftrightarrow>
     expiry l > t \<and> ((m, l) \<in> set (leases lm) \<or> (m, l) \<in> set (offered lm))"
  by (auto simp: live_entries_def)

lemma lease_ip_used: "(m, l) \<in> set (leases lm) \<Longrightarrow> ip l \<in> used_ips lm t"
  by (force simp: used_ips_def)

lemma offer_ip_used: "(m, l) \<in> set (offered lm) \<Longrightarrow> t < expiry l \<Longrightarrow> ip l \<in> used_ips lm t"
  by (force simp: used_ips_def)

lemma get_lease_tables:
  "set (leases (snd (get_lease mac t lm))) \<subseteq> set (leases lm)
   \<and> offered (snd (get_lease mac t lm)) = offered lm"
  using set_delete_subset [of mac "leases lm"]
  by (auto simp: get_lease_def split: option.splits)

lemma offer_ip_unfold:
  "offer_ip mac t lm =
     (if truthy (fst (get_lease mac t lm)) then get_lease mac t lm
      else (case scan_range (used_ips (snd (get_lease mac t lm)) t) (range_ints (snd (get_lease mac t lm))) of
              Some a \<Rightarrow> (Some a, (snd (get_lease mac t lm))\<lparr>offered :=
                  AList.update mac \<lparr>ip = a, expiry = t + 60\<rparr> (offered (snd (get_lease mac t lm)))\<rparr>)
            | None \<Rightarrow> (None, snd (get_lease mac t lm))))"
  by (cases "get_lease mac t lm") (simp add: offer_ip_def split: option.splits)


lemma unique_ipsI:
  assumes "\<And>m1 l1 m2 l2. (m1, l1) \<in> set (live_entries lm t) \<Longrightarrow> (m2, l2) \<in> set (live_entries lm t)
     \<Longrightarrow> m1 \<noteq> m2 \<Longrightarrow> ip l1 \<noteq> ip l2"
  shows "unique_ips lm t"
  using assms unfolding unique_ips_def by blast

lemma unique_ipsD:
  "unique_ips lm t \<Longrightarrow> (m1, l1) \<in> set (live_entries lm t) \<Longrightarrow> (m2, l2) \<in> set (live_entries lm t)
     \<Longrightarrow> m1 \<noteq> m2 \<Longrightarrow> ip l1 \<noteq> ip l2"
  unfolding unique_ips_def by blast

lemma unique_ips_shrink:
  assumes u: "unique_ips lm t"
    and a: "set (leases lm') \<subseteq> set (leases lm)" and b: "set (offered lm') \<subseteq> set (offered lm)"
  shows "unique_ips lm' t"
proof (rule unique_ipsI)
  fix m1 l1 m2 l2
  assume "(m1, l1) \<in> set (live_entries lm' t)" "(m2, l2) \<in> set (live_entries lm' t)" "m1 \<noteq> m2"
  with a b have "(m1, l1) \<in> set (live_entries lm t)" "(m2, l2) \<in> set (live_entries lm t)"
    by (auto simp: in_live_entries)
  with u \<open>m1 \<noteq> m2\<close> show "ip l1 \<noteq> ip l2" by (blast dest: unique_ipsD)
qed

lemma unique_get_lease: "unique_ips lm t \<Longrightarrow> unique_ips (snd (get_lease mac t' lm)) t"
  using get_lease_tables [of mac t' lm] by (auto intro: unique_ips_shrink)

lemma unique_offer:
  assumes u: "unique_ips lm t" and le: "t' \<le> t"
  shows "unique_ips (snd (offer_ip mac t' lm)) t"
proof -
  define lm1 where "lm1 = snd (get_lease mac t' lm)"
  have u1: "unique_ips lm1 t" unfolding lm1_def using u by (rule unique_get_lease)
  have g: "get_lease mac t' lm = (fst (get_lease mac t' lm), lm1)" by (simp add: lm1_def)
  show ?thesis
  proof (cases "truthy (fst (get_lease mac t' lm))")
    case True
    then have "snd (offer_ip mac t' lm) = lm1"
      by (simp add: offer_ip_unfold lm1_def)
    with u1 show ?thesis by simp
  next
    case False
    show ?thesis
    proof (cases "scan_range (used_ips lm1 t') (range_ints lm1)")
      case None
      with False have "snd (offer_ip mac t' lm) = lm1"
        by (simp add: offer_ip_unfold lm1_def)
      with u1 show ?thesis by simp
    next
      case (Some a)
      define new where "new = \<lparr>ip = a, expiry = t' + 60\<rparr>"
      define lm2 where "lm2 = lm1\<lparr>offered := AList.update mac new (offered lm1)\<rparr>"
      from Some False have res: "snd (offer_ip mac t' lm) = lm2"
        by (simp add: offer_ip_unfold lm1_def lm2_def new_def)
      from Some have fresh: "a \<notin> used_ips lm1 t'" by (auto dest: scan_range_Some)
      have off: "set (offered lm2) \<subseteq> insert (mac, new) (set (offered lm1))"
        unfolding lm2_def using set_update_subset [of mac new "offered lm1"] by simp
      have les: "leases lm2 = leases lm1" by (simp add: lm2_def)
      have other: "ip l \<noteq> a" if "(m, l) \<in> set (live_entries lm1 t)" for m l
      proof -
        from that le have "ip l \<in> used_ips lm1 t'"
          by (auto simp: in_live_entries intro: lease_ip_used offer_ip_used)
        with fresh show ?thesis by auto
      qed
      have "unique_ips lm2 t"
      proof (rule unique_ipsI)
        fix m1 l1 m2 l2
        assume e1: "(m1, l1) \<in> set (live_entries lm2 t)"
          and e2: "(m2, l2) \<in> set (live_entries lm2 t)" and ne: "m1 \<noteq> m2"
        from e1 off les have c1: "(m1, l1) = (mac, new) \<or> (m1, l1) \<in> set (live_entries lm1 t)"
          by (auto simp: in_live_entries)
        from e2 off les have c2: "(m2, l2) = (mac, new) \<or> (m2, l2) \<in> set (live_entries lm1 t)"
          by (auto simp: in_live_entries)
        from c1 c2 ne show "ip l1 \<noteq> ip l2"
          using other [of m1 l1] other [of m2 l2] unique_ipsD [OF u1, of m1 l1 m2 l2]
          by (auto simp: new_def)
      qed
      with res show ?thesis by simp
    qed
  qed
qed

lemma unique_commit:
  assumes u: "unique_ips lm t" and le: "t' \<le> t" and un: "unclaimed (Commit mac a t') lm"
  shows "unique_ips (commit_lease mac a t' lm) t"
proof (rule unique_ipsI)
  define new where "new = \<lparr>ip = a, expiry = t' + lease_time lm\<rparr>"
  define lm2 where "lm2 = commit_lease mac a t' lm"
  have les: "set (leases lm2) \<subseteq> insert (mac, new) (set (leases lm))"
    unfolding lm2_def commit_lease_def new_def
    using set_update_subset [of mac _ "leases lm"] by simp
  have off: "set (offered lm2) \<subseteq> set (offered lm)"
    unfolding lm2_def commit_lease_def using set_delete_subset [of mac "offered lm"] by simp
  have other: "ip l \<noteq> a" if "(m, l) \<in> set (live_entries lm t)" "m \<noteq> mac" for m l
  proof -
    from that le have "(m, l) \<in> set (live_entries lm t')" by (auto simp: in_live_entries)
    with un \<open>m \<noteq> mac\<close> show ?thesis by auto
  qed
  fix m1 l1 m2 l2
  assume e1: "(m1, l1) \<in> set (live_entries (commit_lease mac a t' lm) t)"
    and e2: "(m2, l2) \<in> set (live_entries (commit_lease mac a t' lm) t)" and ne: "m1 \<noteq> m2"
  from e1 off les have c1: "(m1, l1) = (mac, new) \<or> (m1, l1) \<in> set (live_entries lm t)"
    by (auto simp: in_live_entries lm2_def)
  from e2 off les have c2: "(m2, l2) = (mac, new) \<or> (m2, l2) \<in> set (live_entries lm t)"
    by (auto simp: in_live_entries lm2_def)
  from c1 c2 ne show "ip l1 \<noteq> ip l2"
    using other [of m1 l1] other [of m2 l2] unique_ipsD [OF u, of m1 l1 m2 l2]
    by (auto simp: new_def)
qed

lemma stable_step:
  assumes "stable t0 lm" "t0 \<le> op_time x" "unclaimed x lm"
  shows "stable (op_time x) (exec_op x lm)"
proof (cases x)
  case (Offer mac t)
  with assms show ?thesis by (auto simp: stable_def intro: unique_offer)
next
  case (Commit mac a t)
  with assms show ?thesis unfolding stable_def
    by (auto intro!: unique_commit simp del: unclaimed.simps)
next
  case (Lookup mac t)
  with assms show ?thesis by (auto simp: stable_def intro: unique_get_lease)
qed

lemma stable_run:
  "stable t0 lm \<Longrightarrow> admissible t0 xs lm \<Longrightarrow> t0 \<le> t \<Longrightarrow> \<forall>x \<in> set xs. op_time x \<le> t
     \<Longrightarrow> unique_ips (run_ops xs lm) t"
proof (induction xs arbitrary: t0 lm)
  case Nil
  then show ?case by (simp add: stable_def)
next
  case (Cons x xs)
  from Cons.prems have "stable (op_time x) (exec_op x lm)"
    by (auto intro: stable_step)
  moreover from Cons.prems have "admissible (op_time x) xs (exec_op x lm)" by simp
  moreover from Cons.prems have "op_time x \<le> t" "\<forall>y \<in> set xs. op_time y \<le> t" by auto
  ultimately have "unique_ips (run_ops xs (exec_op x lm)) t" by (rule Cons.IH)
  then show ?case by simp
qed

lemma stable_init: "stable t0 (LeaseManager_init nm rs re lt)"
  by (simp add: stable_def unique_ips_def live_entries_def LeaseManager_init_def)


lemma get_lease_range [simp]: "range_ints (snd (get_lease mac t lm)) = range_ints lm"
  by (simp add: get_lease_def range_ints_def split: option.splits)















lemma stale_pool_eval:
  "leases stale_pool = [(''m1'', \<lparr>ip = ''192.168.10.100'', expiry = 3600\<rparr>)]"
  "offered stale_pool = []"
  "range_ints stale_pool = [3232238180, 3232238181]"
  "leases stale_pool1 = [(''m1'', \<lparr>ip = ''192.168.10.100'', expiry = 3600\<rparr>)]"
  "offered stale_pool1 = []"
  "range_ints stale_pool1 = [3232238180]"
  "IPv4Address_str 3232238180 = ''192.168.10.100''"
  "IPv4Address_str 3232238181 = ''192.168.10.101''"
  by code_simp+

section \<open>Properties of the lease manager\<close>

text \<open>
  Claim C6. After \<open>commit_lease(mac, a)\<close> at time \<open>now\<close>, \<open>get_lease(mac)\<close> at any
  time before \<open>now + lease_time\<close> returns \<open>a\<close> (and changes nothing), and \<open>offered\<close>
  has no entry for \<open>mac\<close>.
\<close>

theorem commit_then_lookup:
  "now' < now + lease_time lm \<Longrightarrow>
     fst (get_lease mac now' (commit_lease mac a now lm)) = Some a
     \<and> snd (get_lease mac now' (commit_lease mac a now lm)) = commit_lease mac a now lm
     \<and> mac \<notin> fst ` set (offered (commit_lease mac a now lm))"
  by (simp add: get_lease_def commit_lease_def update_conv' delete_notin_dom)

theorem commit_then_lookup_witness:
  "(100::int) < 0 + lease_time pool2
   \<and> (fst (get_lease ''aa:bb:cc:00:00:01'' 100
            (commit_lease ''aa:bb:cc:00:00:01'' ''192.168.10.100'' 0 pool2))
        = Some ''192.168.10.100''
      \<and> snd (get_lease ''aa:bb:cc:00:00:01'' 100
            (commit_lease ''aa:bb:cc:00:00:01'' ''192.168.10.100'' 0 pool2))
        = commit_lease ''aa:bb:cc:00:00:01'' ''192.168.10.100'' 0 pool2
      \<and> ''aa:bb:cc:00:00:01'' \<notin> fst ` set (offered
            (commit_lease ''aa:bb:cc:00:00:01'' ''192.168.10.100'' 0 pool2)))"
proof -
  have h: "(100::int) < 0 + lease_time pool2"
    by (simp add: pool2_def LeaseManager_init_def)
  from h show ?thesis
    by (intro conjI commit_then_lookup [OF h, THEN conjunct1]
        commit_then_lookup [OF h, THEN conjunct2, THEN conjunct1]
        commit_then_lookup [OF h, THEN conjunct2, THEN conjunct2])
qed

text \<open>
  Claim C1. A second \<open>offer_ip\<close> for the same MAC, with no commit in between and before
  the first offer expires, should return the first offer's address. Evaluated on the
  two-address pool and on the one-address pool: the MAC's own pending offer counts as
  used, so the second call moves on to 192.168.10.101, and finds nothing when the
  range has one address.
\<close>

theorem offer_twice_differs:
  "fst (offer_ip ''aa:bb:cc:00:00:01'' 0 pool2) = Some ''192.168.10.100''
   \<and> fst (offer_ip ''aa:bb:cc:00:00:01'' 1 (snd (offer_ip ''aa:bb:cc:00:00:01'' 0 pool2)))
       = Some ''192.168.10.101''
   \<and> fst (offer_ip ''aa:bb:cc:00:00:01'' 0 pool1) = Some ''192.168.10.100''
   \<and> fst (offer_ip ''aa:bb:cc:00:00:01'' 1 (snd (offer_ip ''aa:bb:cc:00:00:01'' 0 pool1)))
       = None"
  by code_simp

text \<open>
  Claim C2, amended. From the empty pool, along any sequence of \<open>offer_ip\<close>,
  \<open>get_lease\<close> and \<open>commit_lease\<close> calls with non-decreasing clock readings in which
  every commit names an address that no live entry of another MAC carries when it is
  made, no two live entries of distinct MACs carry the same address at any time \<open>t\<close>
  not before the calls.
\<close>

theorem unique_ips_reachable:
  assumes "admissible t0 xs (LeaseManager_init nm rs re lt)"
    and "t0 \<le> t" and "\<forall>x \<in> set xs. op_time x \<le> t"
  shows "unique_ips (run_ops xs (LeaseManager_init nm rs re lt)) t"
  using stable_init assms by (rule stable_run)

theorem unique_ips_reachable_witness:
  "admissible 0 [Offer ''m1'' 0, Offer ''m2'' 1, Commit ''m1'' ''192.168.10.100'' 2, Lookup ''m2'' 3]
      (LeaseManager_init 0xFFFFFF00 0xC0A80A64 0xC0A80A65 3600)
   \<and> (0::int) \<le> 5
   \<and> list_all (\<lambda>x. op_time x \<le> 5)
         [Offer ''m1'' 0, Offer ''m2'' 1, Commit ''m1'' ''192.168.10.100'' 2, Lookup ''m2'' 3]
   \<and> unique_ips (run_ops [Offer ''m1'' 0, Offer ''m2'' 1, Commit ''m1'' ''192.168.10.100'' 2, Lookup ''m2'' 3]
         (LeaseManager_init 0xFFFFFF00 0xC0A80A64 0xC0A80A65 3600)) 5"
proof -
  let ?xs = "[Offer ''m1'' 0, Offer ''m2'' 1, Commit ''m1'' ''192.168.10.100'' 2, Lookup ''m2'' 3]"
  have a: "admissible 0 ?xs (LeaseManager_init 0xFFFFFF00 0xC0A80A64 0xC0A80A65 3600)"
    by code_simp
  have b: "(0::int) \<le> 5" by simp
  have c: "\<forall>x \<in> set ?xs. op_time x \<le> 5" by simp
  have d: "list_all (\<lambda>x. op_time x \<le> 5) ?xs" by simp
  show ?thesis using a b d unique_ips_reachable [OF a b c] by blast
qed

text \<open>
  Without the condition on commits the property fails: two MACs commit the same
  address, as \<open>commit_lease\<close> checks nothing.
\<close>

theorem commit_same_address_counterexample:
  "clock_ordered 0 [Commit ''m1'' ''192.168.10.100'' 0, Commit ''m2'' ''192.168.10.100'' 1]
   \<and> \<not> unique_ips (run_ops [Commit ''m1'' ''192.168.10.100'' 0, Commit ''m2'' ''192.168.10.100'' 1]
          (LeaseManager_init 0xFFFFFF00 0xC0A80A64 0xC0A80A65 3600)) 2"
  by code_simp

text \<open>
  Claim C3. A binding whose expiry is in the past should be absent for lookup, and its
  address eligible for reuse by a fresh offer for any MAC. Evaluated on the pool in
  which the binding of \<open>m1\<close> to 192.168.10.100 ran out at 3600: \<open>get_lease\<close> for
  \<open>m1\<close> at 4000 returns \<open>None\<close> and no entry is live, yet at every time \<open>t\<close> the
  offer for another MAC \<open>m2\<close> skips 192.168.10.100, and on the one-address pool it
  finds nothing. \<open>used_ips\<close> counts every entry of \<open>leases\<close> without the expiry test
  that it applies to \<open>offered\<close> and that \<open>get_lease\<close> applies.
\<close>

theorem expired_binding_blocks:
  "fst (get_lease ''m1'' 4000 stale_pool) = None
   \<and> live_entries stale_pool 4000 = []
   \<and> fst (offer_ip ''m2'' t stale_pool) = Some ''192.168.10.101''
   \<and> offer_ip ''m2'' t stale_pool1 = (None, stale_pool1)"
  by (simp add: get_lease_def live_entries_def offer_ip_def used_ips_def truthy_def
      stale_pool_eval)




section \<open>Properties of the packet handler\<close>

lemma handle_packet_short: "length data < 240 \<Longrightarrow> handle_packet aton srv data now = (NoReply, srv)"
  by (simp add: handle_packet_def)

lemma handle_packet_long:
  "240 \<le> length data \<Longrightarrow> handle_packet aton srv data now = (Raised StructError, srv)"
  by (simp add: handle_packet_def struct_unpack_def calcsize_def header_fmt_def)

lemma handle_packet_silent:
  "\<not> sends_reply (fst (handle_packet aton srv data now)) \<and> snd (handle_packet aton srv data now) = srv"
  by (cases "length data < 240")
     (simp_all add: handle_packet_short handle_packet_long sends_reply_def)

lemma dispatch_no_type:
  "\<not> truthy (map_of options 53) \<Longrightarrow> dispatch aton srv xid chaddr options now = (NoReply, srv)"
  by (auto simp: dispatch_def truthy_def split: option.splits list.splits)

lemma hex_char_lower: "d < 16 \<Longrightarrow> hex_char d \<in> set ''0123456789abcdef''"
  unfolding hex_char_def by (rule nth_mem) simp

lemma hex02_lower: "set (hex02 b) \<subseteq> set ''0123456789abcdef''"
proof -
  have "unat b < 2 ^ 8" using unsigned_less [of b, where 'a = nat] by simp
  then have "unat b div 16 < 16" by simp
  then have hi: "hex_char (unat b div 16) \<in> set ''0123456789abcdef''"
    by (rule hex_char_lower)
  have "unat b mod 16 < 16" by simp
  then have "hex_char (unat b mod 16) \<in> set ''0123456789abcdef''"
    by (rule hex_char_lower)
  with hi show ?thesis unfolding hex02_def by (simp only: list.set insert_subset empty_subsetI simp_thms)
qed

lemma join_chars: "(\<And>x. x \<in> set xs \<Longrightarrow> set x \<subseteq> H) \<Longrightarrow> set sep \<subseteq> H \<Longrightarrow> set (join sep xs) \<subseteq> H"
  by (induction sep xs rule: join.induct) auto

lemma mac_string_chars: "set (mac_string bs) \<subseteq> set ''0123456789abcdef:''"
proof -
  define H where "H = set ''0123456789abcdef:''"
  have sub: "set ''0123456789abcdef'' \<subseteq> H" and sep: "set '':'' \<subseteq> H"
    unfolding H_def by auto
  have "set x \<subseteq> H" if "x \<in> set (map hex02 bs)" for x
  proof -
    from that obtain b where "x = hex02 b" by auto
    with hex02_lower [of b] sub show ?thesis by (rule_tac order_trans) auto
  qed
  then have "set (join '':'' (map hex02 bs)) \<subseteq> H" using sep by (rule join_chars)
  then show ?thesis unfolding H_def mac_string_def .
qed

text \<open>
  Claim C4. Option parsing should end at the end of the buffer without failure even
  when the last byte is an option code whose length byte is missing. Evaluated on the
  241-byte datagram whose only option byte is the code 53: the loop reads
  \<open>data[idx+1]\<close> beyond the buffer and raises \<open>IndexError\<close>; \<open>handle_packet\<close>
  itself fails earlier, in the header \<open>struct.unpack\<close>. An option whose declared
  length runs beyond the buffer is accepted with the bytes that are there.
\<close>

theorem parse_options_missing_length:
  "parse_options (datagram [0x35]) 240 [] = Inl IndexError
   \<and> handle_body aton server2 (datagram [0x35]) 1 (replicate 16 0) 0 = (Raised IndexError, server2)
   \<and> handle_packet aton server2 (datagram [0x35]) 0 = (Raised StructError, server2)
   \<and> parse_options (datagram [12, 5, 65]) 240 [] = Inr [(12, [65])]"
  by code_simp

text \<open>
  Claim C5. For a buffer shorter than 240 bytes, for a buffer of at least 240 bytes
  whose bytes 236 to 239 are not the magic cookie, and for a buffer whose options parse
  and hold no non-empty option 53, \<open>handle_packet\<close> sends no reply and leaves the
  server, its lease manager included, unchanged; so does the part of the handler after
  the header unpacking.
\<close>

theorem malformed_dropped:
  assumes "length data < 240
     \<or> (240 \<le> length data \<and> take 4 (drop 236 data) \<noteq> magic_cookie)
     \<or> (parse_options data 240 [] = Inr options \<and> \<not> truthy (map_of options 53))"
  shows "\<not> sends_reply (fst (handle_packet aton srv data now))
     \<and> snd (handle_packet aton srv data now) = srv
     \<and> handle_body aton srv data xid chaddr now = (NoReply, srv)"
proof -
  have "handle_body aton srv data xid chaddr now = (NoReply, srv)"
    using assms
  proof (elim disjE conjE)
    assume "length data < 240"
    then have "length (take 4 (drop 236 data)) \<noteq> length magic_cookie"
      by (simp add: magic_cookie_def)
    then have "take 4 (drop 236 data) \<noteq> magic_cookie" by (rule contrapos_nn) (erule arg_cong)
    then show ?thesis by (simp add: handle_body_def)
  next
    assume "take 4 (drop 236 data) \<noteq> magic_cookie"
    then show ?thesis by (simp add: handle_body_def)
  next
    assume "parse_options data 240 [] = Inr options" "\<not> truthy (map_of options 53)"
    then show ?thesis by (simp add: handle_body_def dispatch_no_type)
  qed
  with handle_packet_silent [of aton srv data now] show ?thesis by simp
qed

theorem malformed_dropped_witness:
  "(length (replicate 100 (0::byte)) < 240
      \<and> \<not> sends_reply (fst (handle_packet aton_example server2 (replicate 100 0) 0))
      \<and> snd (handle_packet aton_example server2 (replicate 100 0) 0) = server2
      \<and> handle_body aton_example server2 (replicate 100 0) 7 (replicate 16 0) 0 = (NoReply, server2))
   \<and> ((240 \<le> length (replicate 240 (0::byte))
        \<and> take 4 (drop 236 (replicate 240 (0::byte))) \<noteq> magic_cookie)
      \<and> \<not> sends_reply (fst (handle_packet aton_example server2 (replicate 240 0) 0))
      \<and> snd (handle_packet aton_example server2 (replicate 240 0) 0) = server2
      \<and> handle_body aton_example server2 (replicate 240 0) 7 (replicate 16 0) 0 = (NoReply, server2))
   \<and> ((parse_options (datagram [12, 1, 65, 255]) 240 [] = Inr [(12, [65])]
        \<and> \<not> truthy (map_of [(12::byte, [65::byte])] 53))
      \<and> \<not> sends_reply (fst (handle_packet aton_example server2 (datagram [12, 1, 65, 255]) 0))
      \<and> snd (handle_packet aton_example server2 (datagram [12, 1, 65, 255]) 0) = server2
      \<and> handle_body aton_example server2 (datagram [12, 1, 65, 255]) 7 (replicate 16 0) 0 = (NoReply, server2))"
proof -
  have a: "length (replicate 100 (0::byte)) < 240" by simp
  have b: "240 \<le> length (replicate 240 (0::byte))
      \<and> take 4 (drop 236 (replicate 240 (0::byte))) \<noteq> magic_cookie"
    by code_simp
  have c: "parse_options (datagram [12, 1, 65, 255]) 240 [] = Inr [(12, [65])]
      \<and> \<not> truthy (map_of [(12::byte, [65::byte])] 53)"
    by code_simp
  note ra = malformed_dropped [where data = "replicate 100 0" and options = "[]" and aton = aton_example and srv = server2
      and now = 0 and xid = 7 and chaddr = "replicate 16 0", OF disjI1, OF a]
  note rb = malformed_dropped [where data = "replicate 240 0" and options = "[]" and aton = aton_example and srv = server2
      and now = 0 and xid = 7 and chaddr = "replicate 16 0", OF disjI2, OF disjI1, OF b]
  note rc = malformed_dropped [where data = "datagram [12, 1, 65, 255]" and options = "[(12, [65])]"
      and aton = aton_example and srv = server2 and now = 0 and xid = 7 and chaddr = "replicate 16 0",
      OF disjI2, OF disjI2, OF c]
  show ?thesis using a b c ra rb rc by blast
qed

text \<open>
  Claim C8. Decoding the bytes of an encoded reply should give back its message type,
  transaction id and address fields. \<open>send_reply\<close> produces no bytes: for every
  transaction id, MAC, address and message type its first \<open>struct.pack\<close> is given
  thirteen values for the twelve fields of the format and raises \<open>struct.error\<close>.
\<close>

theorem send_reply_raises: "send_reply aton srv xid mac_bytes yiaddr_str msg_type = Inl StructError"
  by (simp add: send_reply_def struct_pack_def header_fmt_def bind_err_def)

text \<open>
  Claim C9. For a packet of at least 240 bytes with the magic cookie whose options
  parse and whose option 53 starts with a byte other than 1 and 3, \<open>handle_packet\<close>
  sends no reply and leaves the server unchanged; so does the part of the handler
  after the header unpacking, which falls through both branches.
\<close>

theorem other_types_ignored:
  assumes "240 \<le> length data" and "take 4 (drop 236 data) = magic_cookie"
    and "parse_options data 240 [] = Inr options"
    and "map_of options 53 = Some (t # ts)" and "t \<noteq> 1" and "t \<noteq> 3"
  shows "\<not> sends_reply (fst (handle_packet aton srv data now))
     \<and> snd (handle_packet aton srv data now) = srv
     \<and> handle_body aton srv data xid chaddr now = (NoReply, srv)"
proof -
  from assms(4-6) have "dispatch aton srv xid chaddr options now = (NoReply, srv)"
    by (simp add: dispatch_def)
  with assms(2,3) have "handle_body aton srv data xid chaddr now = (NoReply, srv)"
    by (simp add: handle_body_def)
  with handle_packet_silent [of aton srv data now] show ?thesis by simp
qed

theorem other_types_ignored_witness:
  "240 \<le> length (datagram [53, 1, 7, 255])
   \<and> take 4 (drop 236 (datagram [53, 1, 7, 255])) = magic_cookie
   \<and> parse_options (datagram [53, 1, 7, 255]) 240 [] = Inr [(53, [7])]
   \<and> map_of [(53::byte, [7::byte])] 53 = Some (7 # [])
   \<and> (7::byte) \<noteq> 1 \<and> (7::byte) \<noteq> 3
   \<and> (\<not> sends_reply (fst (handle_packet aton_example server2 (datagram [53, 1, 7, 255]) 0))
      \<and> snd (handle_packet aton_example server2 (datagram [53, 1, 7, 255]) 0) = server2
      \<and> handle_body aton_example server2 (datagram [53, 1, 7, 255]) 7 (replicate 16 0) 0 = (NoReply, server2))"
proof -
  have 1: "240 \<le> length (datagram [53, 1, 7, 255])" by code_simp
  have 2: "take 4 (drop 236 (datagram [53, 1, 7, 255])) = magic_cookie" by code_simp
  have 3: "parse_options (datagram [53, 1, 7, 255]) 240 [] = Inr [(53, [7])]" by code_simp
  have 4: "map_of [(53::byte, [7::byte])] 53 = Some (7 # [])" by simp
  have 5: "(7::byte) \<noteq> 1" and 6: "(7::byte) \<noteq> 3" by simp_all
  show ?thesis
    using 1 2 3 4 5 6 other_types_ignored [OF 1 2 3 4 5 6, where aton = aton_example and srv = server2 and now = 0 and xid = 7 and chaddr = "replicate 16 0"] by blast
qed

lemma hex_char_inj: "d < 16 \<Longrightarrow> e < 16 \<Longrightarrow> hex_char d = hex_char e \<Longrightarrow> d = e"
proof -
  assume d: "d < 16" and e: "e < 16" and eq: "hex_char d = hex_char e"
  have dist: "distinct ''0123456789abcdef''" by simp
  have len: "length ''0123456789abcdef'' = 16" by simp
  from eq have "''0123456789abcdef'' ! d = ''0123456789abcdef'' ! e"
    by (simp only: hex_char_def)
  with dist d e len show "d = e" by (simp only: nth_eq_iff_index_eq)
qed

lemma hex02_inj: "hex02 a = hex02 b \<Longrightarrow> a = b"
proof -
  assume eq: "hex02 a = hex02 b"
  have a: "unat a < 2 ^ 8" using unsigned_less [of a, where 'a = nat] by simp
  have b: "unat b < 2 ^ 8" using unsigned_less [of b, where 'a = nat] by simp
  from a have a1: "unat a div 16 < 16" by simp
  from b have b1: "unat b div 16 < 16" by simp
  have a2: "unat a mod 16 < 16" and b2: "unat b mod 16 < 16" by simp_all
  from eq have h1: "hex_char (unat a div 16) = hex_char (unat b div 16)"
    and h2: "hex_char (unat a mod 16) = hex_char (unat b mod 16)"
    by (simp_all add: hex02_def)
  from hex_char_inj [OF a1 b1 h1] hex_char_inj [OF a2 b2 h2]
  have "unat a div 16 = unat b div 16" "unat a mod 16 = unat b mod 16" .
  then have "unat a = unat b" by (metis div_mult_mod_eq)
  then show "a = b" by (simp add: word_unat_eq_iff)
qed

lemma hex02_length: "length (hex02 b) = 2"
  by (simp add: hex02_def)

lemma six_elements:
  assumes "length xs = 6"
  obtains a b c d e f where "xs = [a, b, c, d, e, f]"
proof -
  from assms have "length xs = Suc (Suc (Suc (Suc (Suc (Suc 0)))))" by simp
  then show ?thesis using that by (auto simp: length_Suc_conv)
qed

lemma mac_string_six:
  "mac_string [b0, b1, b2, b3, b4, b5]
     = hex02 b0 @ '':'' @ hex02 b1 @ '':'' @ hex02 b2 @ '':'' @ hex02 b3 @ '':''
       @ hex02 b4 @ '':'' @ hex02 b5"
  by (simp add: mac_string_def)

lemma mac_string_inj6:
  assumes "length xs = 6" and "length ys = 6" and eq: "mac_string xs = mac_string ys"
  shows "xs = ys"
proof -
  from assms(1) obtain a0 a1 a2 a3 a4 a5 where xs: "xs = [a0, a1, a2, a3, a4, a5]"
    by (rule six_elements)
  from assms(2) obtain b0 b1 b2 b3 b4 b5 where ys: "ys = [b0, b1, b2, b3, b4, b5]"
    by (rule six_elements)
  from eq have "hex02 a0 = hex02 b0 \<and> hex02 a1 = hex02 b1 \<and> hex02 a2 = hex02 b2
      \<and> hex02 a3 = hex02 b3 \<and> hex02 a4 = hex02 b4 \<and> hex02 a5 = hex02 b5"
    unfolding xs ys mac_string_six by (simp add: hex02_length)
  then show ?thesis unfolding xs ys by (simp add: hex02_inj)
qed

lemma dispatch_discover:
  assumes "map_of options 53 = Some (1 # ts)"
  shows "snd (dispatch aton srv xid chaddr options now)
     = srv\<lparr>lease_manager := snd (offer_ip (mac_string (take 6 chaddr)) now (lease_manager srv))\<rparr>"
  using assms
  by (simp add: dispatch_def Let_def split: prod.splits option.splits)

lemma dispatch_request:
  assumes "map_of options 53 = Some (3 # ts)" and "map_of options 50 = Some [r0, r1, r2, r3]"
  shows "snd (dispatch aton srv xid chaddr options now)
     = srv\<lparr>lease_manager := commit_lease (mac_string (take 6 chaddr))
           (dotted_quad (map unat [r0, r1, r2, r3])) now (lease_manager srv)\<rparr>"
  using assms
  by (simp add: dispatch_def Let_def inet_ntoa_def)

text \<open>
  Claim C10. The client key is \<open>mac_string\<close> of the first six bytes of \<open>chaddr\<close>:
  a DISCOVER calls \<open>offer_ip\<close> with it and a REQUEST calls \<open>commit_lease\<close> with
  it. The key is six two-digit lower-case hexadecimal groups joined by colons, and two
  keys are equal exactly when the first six bytes are. Two \<open>chaddr\<close> values that
  agree on their first six bytes give the same result of the handler, whatever the
  unpacked \<open>htype\<close>, \<open>hlen\<close> and the other header fields are.
\<close>

theorem client_key_first_six:
  assumes same: "take 6 chaddr1 = take 6 chaddr2"
    and disc: "map_of optsD 53 = Some (1 # tsD)"
    and req: "map_of optsR 53 = Some (3 # tsR)" "map_of optsR 50 = Some [r0, r1, r2, r3]"
    and len: "6 \<le> length ca" "6 \<le> length cb"
  shows "snd (dispatch aton srv xid chaddr1 optsD now)
       = srv\<lparr>lease_manager :=
             snd (offer_ip (mac_string (take 6 chaddr1)) now (lease_manager srv))\<rparr>
     \<and> snd (dispatch aton srv xid chaddr1 optsR now)
       = srv\<lparr>lease_manager := commit_lease (mac_string (take 6 chaddr1))
             (dotted_quad (map unat [r0, r1, r2, r3])) now (lease_manager srv)\<rparr>
     \<and> (mac_string (take 6 ca) = mac_string (take 6 cb)) = (take 6 ca = take 6 cb)
     \<and> dispatch aton srv xid chaddr1 options now = dispatch aton srv xid chaddr2 options now
     \<and> handle_unpacked aton srv data
          [op1, htype1, hlen1, hops1, VInt xid, secs1, flags1, ci1, yi1, si1, gi1, VBytes chaddr1] now
        = handle_unpacked aton srv data
          [op2, htype2, hlen2, hops2, VInt xid, secs2, flags2, ci2, yi2, si2, gi2, VBytes chaddr2] now
     \<and> set (mac_string (take 6 chaddr1)) \<subseteq> set ''0123456789abcdef:''
     \<and> mac_string (take 6 (b0 # b1 # b2 # b3 # b4 # b5 # rest))
        = hex02 b0 @ '':'' @ hex02 b1 @ '':'' @ hex02 b2 @ '':'' @ hex02 b3 @ '':''
          @ hex02 b4 @ '':'' @ hex02 b5"
proof -
  note k1 = dispatch_discover [OF disc, of aton srv xid chaddr1 now]
  note k2 = dispatch_request [OF req, of aton srv xid chaddr1 now]
  have inj: "(mac_string (take 6 ca) = mac_string (take 6 cb)) = (take 6 ca = take 6 cb)"
  proof
    assume "mac_string (take 6 ca) = mac_string (take 6 cb)"
    with len show "take 6 ca = take 6 cb" by (intro mac_string_inj6) simp_all
  next
    assume "take 6 ca = take 6 cb"
    then show "mac_string (take 6 ca) = mac_string (take 6 cb)" by simp
  qed
  have d: "dispatch aton srv xid chaddr1 opts now = dispatch aton srv xid chaddr2 opts now" for opts
    unfolding dispatch_def same by (rule refl)
  have b: "handle_body aton srv data xid chaddr1 now = handle_body aton srv data xid chaddr2 now"
    unfolding handle_body_def d by (rule refl)
  have u: "handle_unpacked aton srv data
          [op1, htype1, hlen1, hops1, VInt xid, secs1, flags1, ci1, yi1, si1, gi1, VBytes chaddr1] now
        = handle_unpacked aton srv data
          [op2, htype2, hlen2, hops2, VInt xid, secs2, flags2, ci2, yi2, si2, gi2, VBytes chaddr2] now"
    by (simp add: handle_unpacked_def b)
  have f: "mac_string (take 6 (b0 # b1 # b2 # b3 # b4 # b5 # rest))
        = hex02 b0 @ '':'' @ hex02 b1 @ '':'' @ hex02 b2 @ '':'' @ hex02 b3 @ '':''
          @ hex02 b4 @ '':'' @ hex02 b5"
    by (simp add: mac_string_def)
  from k1 k2 inj d [of options] u mac_string_chars [of "take 6 chaddr1"] f show ?thesis by blast
qed

theorem client_key_first_six_witness:
  "take 6 chaddr_a = take 6 chaddr_b
   \<and> map_of [(53 :: byte, [1 :: byte])] 53 = Some (1 # [])
   \<and> map_of [(53 :: byte, [3 :: byte]), (50, [192, 168, 10, 100])] 53 = Some (3 # [])
   \<and> map_of [(53 :: byte, [3 :: byte]), (50, [192, 168, 10, 100])] 50 = Some [192, 168, 10, 100]
   \<and> 6 \<le> length chaddr_a \<and> 6 \<le> length chaddr_c
   \<and> snd (dispatch aton_example server2 7 chaddr_a [(53, [1])] 0)
       = server2\<lparr>lease_manager :=
           snd (offer_ip (mac_string (take 6 chaddr_a)) 0 (lease_manager server2))\<rparr>
   \<and> snd (dispatch aton_example server2 7 chaddr_a [(53, [3]), (50, [192, 168, 10, 100])] 0)
       = server2\<lparr>lease_manager := commit_lease (mac_string (take 6 chaddr_a))
           (dotted_quad (map unat [192, 168, 10, 100 :: byte])) 0 (lease_manager server2)\<rparr>
   \<and> (mac_string (take 6 chaddr_a) = mac_string (take 6 chaddr_c))
       = (take 6 chaddr_a = take 6 chaddr_c)
   \<and> dispatch aton_example server2 7 chaddr_a [(53, [1])] 0
       = dispatch aton_example server2 7 chaddr_b [(53, [1])] 0
   \<and> handle_unpacked aton_example server2 (datagram [53, 1, 1, 255])
         [VInt 1, VInt 1, VInt 6, VInt 0, VInt 7, VInt 0, VInt 0, VInt 0, VInt 0, VInt 0, VInt 0,
          VBytes chaddr_a] 0
       = handle_unpacked aton_example server2 (datagram [53, 1, 1, 255])
         [VInt 1, VInt 6, VInt 16, VInt 0, VInt 7, VInt 0, VInt 0, VInt 0, VInt 0, VInt 0, VInt 0,
          VBytes chaddr_b] 0
   \<and> set (mac_string (take 6 chaddr_a)) \<subseteq> set ''0123456789abcdef:''
   \<and> mac_string (take 6 (0xaa # 0xbb # 0xcc # 0 # 0 # 1 # [0, 0, 0, 0, 0, 0, 0, 0, 0, 0]))
       = hex02 0xaa @ '':'' @ hex02 0xbb @ '':'' @ hex02 0xcc @ '':'' @ hex02 0 @ '':''
         @ hex02 0 @ '':'' @ hex02 1
   \<and> mac_string (take 6 chaddr_a) = ''aa:bb:cc:00:00:01''
   \<and> mac_string (take 6 chaddr_c) = ''aa:bb:cc:00:00:02''
   \<and> offered (lease_manager (snd (dispatch aton_example server2 7 chaddr_a [(53, [1])] 0)))
       = [(''aa:bb:cc:00:00:01'', \<lparr>ip = ''192.168.10.100'', expiry = 60\<rparr>)]"
proof -
  have h1: "take 6 chaddr_a = take 6 chaddr_b" by code_simp
  have h2: "map_of [(53 :: byte, [1 :: byte])] 53 = Some (1 # [])" by simp
  have h3: "map_of [(53 :: byte, [3 :: byte]), (50, [192, 168, 10, 100])] 53 = Some (3 # [])"
    by simp
  have h4: "map_of [(53 :: byte, [3 :: byte]), (50, [192, 168, 10, 100])] 50
      = Some [192, 168, 10, 100]" by simp
  have h5: "6 \<le> length chaddr_a" and h6: "6 \<le> length chaddr_c" by code_simp+
  have e1: "mac_string (take 6 chaddr_a) = ''aa:bb:cc:00:00:01''" by code_simp
  have e2: "mac_string (take 6 chaddr_c) = ''aa:bb:cc:00:00:02''" by code_simp
  have e3: "offered (lease_manager (snd (dispatch aton_example server2 7 chaddr_a [(53, [1])] 0)))
       = [(''aa:bb:cc:00:00:01'', \<lparr>ip = ''192.168.10.100'', expiry = 60\<rparr>)]" by code_simp
  note r = client_key_first_six [OF h1 h2 h3 h4 h5 h6, where aton = aton_example and srv = server2
      and xid = 7 and now = 0 and options = "[(53, [1])]"
      and data = "datagram [53, 1, 1, 255]"
      and ?op1.0 = "VInt 1" and ?htype1.0 = "VInt 1" and ?hlen1.0 = "VInt 6" and ?hops1.0 = "VInt 0"
      and ?secs1.0 = "VInt 0" and ?flags1.0 = "VInt 0" and ?ci1.0 = "VInt 0" and ?yi1.0 = "VInt 0"
      and ?si1.0 = "VInt 0" and ?gi1.0 = "VInt 0"
      and ?op2.0 = "VInt 1" and ?htype2.0 = "VInt 6" and ?hlen2.0 = "VInt 16" and ?hops2.0 = "VInt 0"
      and ?secs2.0 = "VInt 0" and ?flags2.0 = "VInt 0" and ?ci2.0 = "VInt 0" and ?yi2.0 = "VInt 0"
      and ?si2.0 = "VInt 0" and ?gi2.0 = "VInt 0"
      and ?b0.0 = "0xaa" and ?b1.0 = "0xbb" and ?b2.0 = "0xcc" and ?b3.0 = 0 and ?b4.0 = 0
      and ?b5.0 = 1 and rest = "[0, 0, 0, 0, 0, 0, 0, 0, 0, 0]"]
  show ?thesis using h1 h2 h3 h4 h5 h6 e1 e2 e3 r by blast
qed

end
